theory Spec2Isabelle
  imports Complex_Main
begin

section \<open>Lazy Line Painter: the animation timeline\<close>

text \<open>
  A shallow embedding of the timeline engine of the jQuery plugin \<open>lazylinepainter\<close>:
  the methods \<open>paint\<close> (with its inner function \<open>init\<close>), \<open>pauseResume\<close> and
  \<open>erase\<close>, and the private functions \<open>adjustStartTime\<close> and \<open>draw\<close>.

  JavaScript numbers are modelled as exact real numbers: the rounding of IEEE doubles is
  not part of the model. The one non-numeric behaviour of a number that the code relies on,
  the falsiness of \<open>undefined\<close>, \<open>null\<close>, \<open>NaN\<close> and \<open>0\<close> in
  \<open>if (!data.startTime)\<close>, is modelled by the type \<open>jsnum\<close>.
\<close>

subsection \<open>Data\<close>

text \<open>One entry of \<open>options.svgData[target].strokepath\<close>. An absent \<open>reverse\<close> key is
  \<open>undefined\<close>, which is falsy: \<open>False\<close>.\<close>

record strokepath =
  path :: string
  duration :: real
  reverse_seg :: bool

text \<open>One element of \<open>data.paths\<close>, as pushed by \<open>init\<close>. The field \<open>path\<close> of the source
  is the SVG element; what the code reads and writes of it is
  \<open>path.style.strokeDashoffset\<close>.\<close>

record pathobj =
  pduration :: real
  drawStartTime :: real
  plength :: real
  strokeDashoffset :: real

text \<open>The value of a nullable numeric field of \<open>data\<close>.\<close>

datatype jsnum = Undefined | Null | NaN | Num real

text \<open>The callbacks the plugin passes to \<open>requestAnimationFrame\<close>: one calls \<open>draw\<close>,
  the other \<open>adjustStartTime\<close>. Both close over the same \<open>data\<close> object.\<close>

datatype callback = Draw | AdjustStartTime

datatype error = TypeError

text \<open>
  The state: the \<open>data\<close> object of one element (the options cached by \<open>init\<close> and
  the fields \<open>paint\<close>, \<open>draw\<close>, \<open>pauseResume\<close> and \<open>erase\<close> add to it), and the part of the
  browser the plugin acts on: the pending animation frame callbacks with their handles, the
  pending \<open>setTimeout(init, delay)\<close> timers, the number of \<open>path\<close> elements inside the
  \<open>svg\<close> element, the DOM measurement \<open>getTotalLength\<close> of a path's geometry, and how often
  the two user callbacks were invoked.
  \<open>has_data\<close> is whether \<open>$this.data(dataKey)\<close> is defined, that is whether the plugin's
  \<open>init\<close> method ran on the element (and \<open>destroy\<close> did not); \<open>onStart\<close> and
  \<open>onComplete\<close> are whether the option is a function (not \<open>null\<close>).
\<close>

record world =
  has_data :: bool
  svgData :: "strokepath list"
  speedMultiplier :: real
  reverse :: bool
  drawSequential :: bool
  delay :: "real option"
  onStart :: bool
  onComplete :: bool
  paths :: "pathobj list"
  longestDuration :: real
  playhead :: real
  totalDuration :: real
  rAF :: "nat option"
  startTime :: jsnum
  elapsedTime :: jsnum
  paused :: bool
  pending :: "(nat \<times> callback) list"
  nextHandle :: nat
  timeouts :: "real list"
  svgChildren :: nat
  getTotalLength :: "string \<Rightarrow> real"
  onStartCalls :: nat
  onCompleteCalls :: nat

subsection \<open>The browser's frame clock\<close>

text \<open>\<open>requestAnimationFrame(cb)\<close> queues the callback and returns a fresh handle;
  \<open>cancelAnimationFrame(h)\<close> removes the callback with that handle, and does nothing when
  there is none (or when \<open>h\<close> is \<open>undefined\<close>).\<close>

definition requestAnimationFrame :: "callback \<Rightarrow> world \<Rightarrow> nat \<times> world" where
  "requestAnimationFrame cb w =
     (nextHandle w,
      w\<lparr>pending := pending w @ [(nextHandle w, cb)], nextHandle := Suc (nextHandle w)\<rparr>)"

definition cancelAnimationFrame :: "nat option \<Rightarrow> world \<Rightarrow> world" where
  "cancelAnimationFrame h w = w\<lparr>pending := filter (\<lambda>(k, cb). Some k \<noteq> h) (pending w)\<rparr>"

subsection \<open>\<open>paint\<close> and its inner function \<open>init\<close>\<close>

text \<open>The first loop of \<open>init\<close>: the local variable \<open>totalDuration\<close>.\<close>

fun sum_loop :: "strokepath list \<Rightarrow> real \<Rightarrow> real \<Rightarrow> real" where
  "sum_loop [] sm tot = tot"
| "sum_loop (s # ss) sm tot = sum_loop ss sm (tot + duration s * sm)"

text \<open>The second loop of \<open>init\<close>, over the entries of \<open>data.svgData\<close> that are left; the
  second component is the local variable \<open>totalDuration\<close>. \<open>getPath\<close> appends a new
  \<open>path\<close> element to the \<open>svg\<close> element, and \<open>init\<close> sets its \<open>strokeDashoffset\<close> to its
  length (nothing of the stroke visible).\<close>

fun init_loop :: "strokepath list \<Rightarrow> world \<Rightarrow> real \<Rightarrow> world \<times> real" where
  "init_loop [] w tot = (w, tot)"
| "init_loop (s # ss) w tot =
     (let w1 = w\<lparr>svgChildren := Suc (svgChildren w)\<rparr>;
          len = getTotalLength w1 (path s);
          d = duration s * speedMultiplier w1;
          w2 = (if d > longestDuration w1 then w1\<lparr>longestDuration := d\<rparr> else w1);
          tot' = (if reverse w2 then tot - d else tot);
          start = (if reverse w2 then tot' else playhead w2);
          w3 = w2\<lparr>paths := paths w2 @
                 [\<lparr>pduration = d, drawStartTime = start, plength = len,
                   strokeDashoffset = len\<rparr>]\<rparr>;
          w4 = w3\<lparr>playhead := playhead w3 + d\<rparr>
      in init_loop ss w4 tot')"

definition init :: "world \<Rightarrow> world" where
  "init w =
     (let w1 = w\<lparr>paths := [], longestDuration := 0, playhead := 0\<rparr>;
          tot0 = sum_loop (svgData w1) (speedMultiplier w1) 0;
          w2 = fst (init_loop (svgData w1) w1 tot0);
          w3 = w2\<lparr>totalDuration :=
                 (if drawSequential w2 then playhead w2 else longestDuration w2)\<rparr>;
          (h, w4) = requestAnimationFrame Draw w3;
          w5 = w4\<lparr>rAF := Some h\<rparr>
      in if onStart w5 then w5\<lparr>onStartCalls := Suc (onStartCalls w5)\<rparr> else w5)"

text \<open>\<open>paint\<close>: with no delay \<open>init\<close> runs at once, otherwise a timer is set. Reading
  \<open>data.delay\<close> of an element without plugin data throws a \<open>TypeError\<close>; the code has no
  other failure.\<close>

definition paint :: "world \<Rightarrow> error + world" where
  "paint w =
     (if \<not> has_data w then Inl TypeError
      else case delay w of
             None \<Rightarrow> Inr (init w)
           | Some ms \<Rightarrow> Inr (w\<lparr>timeouts := timeouts w @ [ms]\<rparr>))"

text \<open>The oldest pending timer of \<open>paint\<close> fires.\<close>

definition timeout_fires :: "world \<Rightarrow> world" where
  "timeout_fires w =
     (case timeouts w of [] \<Rightarrow> w | ms # rest \<Rightarrow> init (w\<lparr>timeouts := rest\<rparr>))"

subsection \<open>\<open>draw\<close> and \<open>adjustStartTime\<close>\<close>

text \<open>The body of the loop of \<open>draw\<close> for one path: \<open>seq\<close> is \<open>data.drawSequential\<close>,
  \<open>rv\<close> is \<open>data.reverse || data.svgData[i].reverse\<close>.\<close>

definition pathElapsedTime :: "real \<Rightarrow> bool \<Rightarrow> pathobj \<Rightarrow> real" where
  "pathElapsedTime elapsed seq p =
     (if seq then (if elapsed - drawStartTime p < 0 then 0 else elapsed - drawStartTime p)
      else elapsed)"

definition draw_path :: "real \<Rightarrow> bool \<Rightarrow> bool \<Rightarrow> pathobj \<Rightarrow> pathobj" where
  "draw_path elapsed seq rv p =
     (let pe = pathElapsedTime elapsed seq p in
      if pe < pduration p \<and> pe > 0 then
        (let frameLength = pe / pduration p * plength p in
         if rv then p\<lparr>strokeDashoffset := - plength p + frameLength\<rparr>
         else p\<lparr>strokeDashoffset := plength p - frameLength\<rparr>)
      else if pe > pduration p then p\<lparr>strokeDashoffset := 0\<rparr>
      else p)"

text \<open>The loop of \<open>draw\<close> over \<open>data.paths\<close>, reading \<open>data.svgData[i]\<close> beside
  \<open>data.paths[i]\<close>. \<open>init\<close> builds one path for each entry of \<open>svgData\<close>
  (lemma \<open>length_paths_init\<close>), so the two lists end together.\<close>

fun draw_paths :: "real \<Rightarrow> bool \<Rightarrow> bool \<Rightarrow> strokepath list \<Rightarrow> pathobj list \<Rightarrow> pathobj list" where
  "draw_paths elapsed seq rv (s # ss) (p # ps) =
     draw_path elapsed seq (rv \<or> reverse_seg s) p # draw_paths elapsed seq rv ss ps"
| "draw_paths elapsed seq rv ss ps = ps"

text \<open>\<open>if (!data.startTime) data.startTime = timestamp\<close>: the start time after this
  statement. \<open>undefined\<close>, \<open>null\<close>, \<open>NaN\<close> and \<open>0\<close> are falsy.\<close>

fun start_or :: "real \<Rightarrow> jsnum \<Rightarrow> real" where
  "start_or timestamp (Num s) = (if s = 0 then timestamp else s)"
| "start_or timestamp v = timestamp"

text \<open>\<open>timestamp - data.elapsedTime\<close>: \<open>null\<close> converts to \<open>0\<close>, \<open>undefined\<close> to
  \<open>NaN\<close>.\<close>

fun js_minus :: "real \<Rightarrow> jsnum \<Rightarrow> jsnum" where
  "js_minus t (Num x) = Num (t - x)"
| "js_minus t Null = Num t"
| "js_minus t Undefined = NaN"
| "js_minus t NaN = NaN"

definition draw :: "real \<Rightarrow> world \<Rightarrow> world" where
  "draw timestamp w =
     (let s = start_or timestamp (startTime w);
          e = timestamp - s;
          w1 = w\<lparr>startTime := Num s, elapsedTime := Num e\<rparr>;
          w2 = w1\<lparr>paths := draw_paths e (drawSequential w1) (reverse w1) (svgData w1) (paths w1)\<rparr>
      in if e < totalDuration w2 then
           (let (h, w3) = requestAnimationFrame Draw w2 in w3\<lparr>rAF := Some h\<rparr>)
         else if onComplete w2 then w2\<lparr>onCompleteCalls := Suc (onCompleteCalls w2)\<rparr>
         else w2)"

definition adjustStartTime :: "real \<Rightarrow> world \<Rightarrow> world" where
  "adjustStartTime timestamp w =
     snd (requestAnimationFrame Draw (w\<lparr>startTime := js_minus timestamp (elapsedTime w)\<rparr>))"

text \<open>One frame of the browser at time \<open>timestamp\<close>: the callbacks that were pending when
  the frame began run in the order they were requested, all with the same timestamp; what
  they request runs in a later frame.\<close>

fun run_callback :: "real \<Rightarrow> callback \<Rightarrow> world \<Rightarrow> world" where
  "run_callback timestamp Draw w = draw timestamp w"
| "run_callback timestamp AdjustStartTime w = adjustStartTime timestamp w"

definition frame :: "real \<Rightarrow> world \<Rightarrow> world" where
  "frame timestamp w =
     foldl (\<lambda>v (h, cb). run_callback timestamp cb v) (w\<lparr>pending := []\<rparr>) (pending w)"

subsection \<open>\<open>pauseResume\<close> and \<open>erase\<close>\<close>

definition pauseResume :: "world \<Rightarrow> error + world" where
  "pauseResume w =
     (if \<not> has_data w then Inl TypeError
      else if \<not> paused w then Inr (cancelAnimationFrame (rAF w) (w\<lparr>paused := True\<rparr>))
      else Inr (snd (requestAnimationFrame AdjustStartTime (w\<lparr>paused := False\<rparr>))))"

definition erase :: "world \<Rightarrow> error + world" where
  "erase w =
     (if \<not> has_data w then Inl TypeError
      else Inr ((cancelAnimationFrame (rAF w) (w\<lparr>startTime := Null, elapsedTime := Null\<rparr>))
                  \<lparr>svgChildren := 0\<rparr>))"

subsection \<open>Derived notions\<close>

text \<open>The scaled durations \<open>data.svgData[i].duration * data.speedMultiplier\<close>, in the order
  of \<open>svgData\<close>.\<close>

definition scaled :: "real \<Rightarrow> strokepath list \<Rightarrow> real list" where
  "scaled sm ss = map (\<lambda>s. duration s * sm) ss"

text \<open>The result of \<open>if (duration > data.longestDuration) data.longestDuration = duration\<close>
  over a list of durations, from the value \<open>m\<close>.\<close>

fun longest :: "real \<Rightarrow> real list \<Rightarrow> real" where
  "longest m [] = m"
| "longest m (d # ds) = longest (if d > m then d else m) ds"

text \<open>The time interval a scheduled path occupies:
  \<open>[drawStartTime, drawStartTime + duration)\<close>.\<close>

definition interval :: "pathobj \<Rightarrow> real set" where
  "interval p = {drawStartTime p ..< drawStartTime p + pduration p}"

text \<open>The list of path objects that the second loop of \<open>init\<close> pushes, as a function of
  what the loop reads: the flag \<open>data.reverse\<close>, the measurement, the speed multiplier, the
  entries left, \<open>data.playhead\<close> and the local \<open>totalDuration\<close>
  (lemma \<open>init_loop_eq\<close>).\<close>

fun build_paths :: "bool \<Rightarrow> (string \<Rightarrow> real) \<Rightarrow> real \<Rightarrow> strokepath list \<Rightarrow> real \<Rightarrow> real \<Rightarrow> pathobj list" where
  "build_paths rv gl sm [] play tot = []"
| "build_paths rv gl sm (s # ss) play tot =
     \<lparr>pduration = duration s * sm,
      drawStartTime = (if rv then tot - duration s * sm else play),
      plength = gl (path s), strokeDashoffset = gl (path s)\<rparr>
     # build_paths rv gl sm ss (play + duration s * sm) (if rv then tot - duration s * sm else tot)"

text \<open>Follows the spec's words for reverse sequential scheduling: initialize
  \<open>remaining = totalDuration\<close>; for each segment in original index order,
  \<open>remaining -= durationScaled[i]; startOffset[i] = remaining\<close>.\<close>

fun reverse_offsets_spec :: "real \<Rightarrow> real list \<Rightarrow> real list" where
  "reverse_offsets_spec remaining [] = []"
| "reverse_offsets_spec remaining (d # ds) = (remaining - d) # reverse_offsets_spec (remaining - d) ds"

subsection \<open>Example data\<close>

text \<open>A stroke path entry with the given duration, and the \<open>data\<close> object of an element
  right after the plugin's \<open>init\<close> method, with the default options (sequential, forward,
  speed multiplier 1, no delay), an \<open>onComplete\<close> callback, and a browser that measures every
  path as 100 units long and has handed out no frame handle yet.\<close>

definition segment :: "real \<Rightarrow> strokepath" where
  "segment d = \<lparr>path = ''M 0,0 L 100,0'', duration = d, reverse_seg = False\<rparr>"

definition fresh :: "strokepath list \<Rightarrow> world" where
  "fresh ss =
     \<lparr>has_data = True, svgData = ss, speedMultiplier = 1, reverse = False,
      drawSequential = True, delay = None, onStart = False, onComplete = True, paths = [],
      longestDuration = 0, playhead = 0, totalDuration = 0, rAF = None,
      startTime = Undefined, elapsedTime = Undefined, paused = False, pending = [],
      nextHandle = 1, timeouts = [], svgChildren = 0, getTotalLength = (\<lambda>d. 100),
      onStartCalls = 0, onCompleteCalls = 0\<rparr>"

subsection \<open>Runs of frames\<close>

text \<open>The browser runs one frame after the other, at the given timestamps, with no call of a
  plugin method in between.\<close>

fun frames :: "real list \<Rightarrow> world \<Rightarrow> world" where
  "frames [] w = w"
| "frames (t # ts) w = frames ts (frame t w)"

subsection \<open>What is visible of a path\<close>

text \<open>\<open>init\<close> sets \<open>strokeDasharray\<close> to \<open>length + ' ' + length\<close>: a dash as long as the
  path, then a gap as long as the path. With the dash offset \<open>o\<close> the stroke shows
  \<open>length - |o|\<close> of the path, so the visible fraction is that over the length; a path of
  length 0 has nothing to reveal, and counts as fully visible.\<close>

definition visibleFraction :: "pathobj \<Rightarrow> real" where
  "visibleFraction p =
     (if plength p = 0 then 1 else (plength p - \<bar>strokeDashoffset p\<bar>) / plength p)"

text \<open>The states of one path after each of a run of frames, \<open>draw\<close> computing the given
  elapsed times one after the other.\<close>

fun frames_path :: "real list \<Rightarrow> bool \<Rightarrow> bool \<Rightarrow> pathobj \<Rightarrow> pathobj list" where
  "frames_path [] seq rv p = []"
| "frames_path (e # es) seq rv p =
     draw_path e seq rv p # frames_path es seq rv (draw_path e seq rv p)"

text \<open>The fraction that a write of \<open>draw\<close> at the elapsed time \<open>e\<close> makes visible, extended
  to the elapsed times at which \<open>draw\<close> writes nothing.\<close>

definition ideal :: "real \<Rightarrow> bool \<Rightarrow> pathobj \<Rightarrow> real" where
  "ideal e seq p =
     (if plength p = 0 then 1
      else if pduration p \<le> pathElapsedTime e seq p then 1
      else if 0 < pathElapsedTime e seq p then pathElapsedTime e seq p / pduration p
      else 0)"

section \<open>Properties\<close>

subsection \<open>What \<open>init\<close> computes\<close>

lemma sum_loop_eq: "sum_loop ss sm acc = acc + sum_list (scaled sm ss)"
  by (induction ss arbitrary: acc) (simp_all add: scaled_def)

lemma init_loop_eq:
  "init_loop ss w tot =
     (w\<lparr>svgChildren := svgChildren w + length ss,
        longestDuration := longest (longestDuration w) (scaled (speedMultiplier w) ss),
        paths := paths w @ build_paths (reverse w) (getTotalLength w) (speedMultiplier w) ss (playhead w) tot,
        playhead := playhead w + sum_list (scaled (speedMultiplier w) ss)\<rparr>,
      if reverse w then tot - sum_list (scaled (speedMultiplier w) ss) else tot)"
  by (induction ss arbitrary: w tot) (simp_all add: scaled_def Let_def)

lemma init_eq:
  "init w =
     w\<lparr>svgChildren := svgChildren w + length (svgData w),
       longestDuration := longest 0 (scaled (speedMultiplier w) (svgData w)),
       paths := build_paths (reverse w) (getTotalLength w) (speedMultiplier w) (svgData w) 0
                  (sum_list (scaled (speedMultiplier w) (svgData w))),
       playhead := sum_list (scaled (speedMultiplier w) (svgData w)),
       totalDuration := (if drawSequential w then sum_list (scaled (speedMultiplier w) (svgData w))
                         else longest 0 (scaled (speedMultiplier w) (svgData w))),
       pending := pending w @ [(nextHandle w, Draw)],
       nextHandle := Suc (nextHandle w),
       rAF := Some (nextHandle w),
       onStartCalls := (if onStart w then Suc (onStartCalls w) else onStartCalls w)\<rparr>"
  by (cases "onStart w") (simp_all add: init_def init_loop_eq sum_loop_eq requestAnimationFrame_def Let_def split del: if_split cong: if_cong)

lemma length_build_paths [simp]: "length (build_paths rv gl sm ss play tot) = length ss"
  by (induction ss arbitrary: play tot) simp_all

lemma build_paths_nth:
  "i < length ss \<Longrightarrow> build_paths rv gl sm ss play tot ! i =
     \<lparr>pduration = duration (ss ! i) * sm,
      drawStartTime = (if rv then tot - sum_list (take (Suc i) (scaled sm ss))
                       else play + sum_list (take i (scaled sm ss))),
      plength = gl (path (ss ! i)), strokeDashoffset = gl (path (ss ! i))\<rparr>"
proof (induction ss arbitrary: i play tot)
  case Nil
  then show ?case by simp
next
  case (Cons s ss)
  show ?case
  proof (cases i)
    case 0
    then show ?thesis by (simp add: scaled_def)
  next
    case (Suc j)
    with Cons.prems have "j < length ss" by simp
    from Cons.IH [OF this] Suc show ?thesis by (simp add: scaled_def algebra_simps)
  qed
qed

lemma map_pduration_build:
  "map pduration (build_paths rv gl sm ss play tot) = scaled sm ss"
  by (induction ss arbitrary: play tot) (simp_all add: scaled_def)


lemma length_paths_init: "length (paths (init w)) = length (svgData w)"
  by (simp add: init_eq)

lemma sum_take_mono:
  "\<forall>d\<in>set ds. 0 \<le> d \<Longrightarrow> i \<le> j \<Longrightarrow> sum_list (take i ds) \<le> sum_list (take j (ds::real list))"
proof (induction ds arbitrary: i j)
  case Nil
  then show ?case by simp
next
  case (Cons d ds)
  show ?case
  proof (cases i)
    case 0
    have "0 \<le> sum_list (take j (d # ds))"
    proof (rule sum_list_nonneg)
      fix x assume "x \<in> set (take j (d # ds))"
      then have "x \<in> set (d # ds)" by (rule in_set_takeD)
      with Cons.prems(1) show "0 \<le> x" by blast
    qed
    with 0 show ?thesis by simp
  next
    case (Suc i')
    with Cons.prems obtain j' where j: "j = Suc j'" "i' \<le> j'" by (cases j) auto
    with Cons.IH [of i' j'] Cons.prems Suc show ?thesis by simp
  qed
qed

lemma sum_take_le_total:
  "\<forall>d\<in>set ds. 0 \<le> d \<Longrightarrow> sum_list (take i ds) \<le> sum_list (ds::real list)"
  using sum_take_mono [of ds i "length ds"] by (cases "i \<le> length ds") simp_all


lemma scaled_nonneg_iff:
  "(\<forall>p \<in> set (build_paths rv gl sm ss play tot). 0 \<le> pduration p) = (\<forall>d \<in> set (scaled sm ss). 0 \<le> d)"
proof -
  have "set (scaled sm ss) = pduration ` set (build_paths rv gl sm ss play tot)"
    by (simp only: map_pduration_build [symmetric, of sm ss rv gl play tot] set_map)
  then show ?thesis by auto
qed

lemma union_build_forward:
  "\<forall>d \<in> set (scaled sm ss). 0 \<le> d \<Longrightarrow>
     (\<Union>p \<in> set (build_paths False gl sm ss play tot). interval p) =
       {play ..< play + sum_list (scaled sm ss)}"
proof (induction ss arbitrary: play)
  case Nil
  then show ?case by (simp add: scaled_def)
next
  case (Cons s ss)
  let ?d = "duration s * sm"
  from Cons.prems have d: "0 \<le> ?d" and rest: "\<forall>d \<in> set (scaled sm ss). 0 \<le> d"
    by (simp_all add: scaled_def)
  have r: "0 \<le> sum_list (scaled sm ss)" using rest by (simp add: sum_list_nonneg)
  have "{play ..< play + ?d} \<union> {play + ?d ..< play + ?d + sum_list (scaled sm ss)} =
          {play ..< play + ?d + sum_list (scaled sm ss)}"
    using d r by (intro ivl_disj_un_two) simp_all
  with Cons.IH [OF rest, of "play + ?d"] show ?case
    by (simp add: interval_def scaled_def add.assoc)
qed

subsection \<open>Sequential mode, forward\<close>

text \<open>
  C1. In sequential mode with the global reverse flag false, \<open>init\<close> builds one path per
  entry of \<open>svgData\<close>, with the scaled duration of the entry; the first path starts at 0 and
  every later path starts where the one before it ends; the total duration is the sum of the
  scaled durations. When no scaled duration is negative, the intervals
  \<open>[drawStartTime, drawStartTime + duration)\<close> of two different paths are disjoint, and
  together the intervals cover exactly \<open>[0, totalDuration)\<close>.
\<close>

theorem sequential_forward_schedule:
  assumes seq: "drawSequential w" and fwd: "\<not> reverse w"
  shows "length (paths (init w)) = length (svgData w)
    \<and> (\<forall>i < length (svgData w).
          pduration (paths (init w) ! i) = duration (svgData w ! i) * speedMultiplier w)
    \<and> (svgData w \<noteq> [] \<longrightarrow> drawStartTime (paths (init w) ! 0) = 0)
    \<and> (\<forall>i. 0 < i \<and> i < length (svgData w) \<longrightarrow>
          drawStartTime (paths (init w) ! i) =
            drawStartTime (paths (init w) ! (i - 1)) + pduration (paths (init w) ! (i - 1)))
    \<and> totalDuration (init w) = sum_list (map pduration (paths (init w)))
    \<and> ((\<forall>p \<in> set (paths (init w)). 0 \<le> pduration p) \<longrightarrow>
          (\<forall>i j. i < j \<and> j < length (svgData w) \<longrightarrow>
             interval (paths (init w) ! i) \<inter> interval (paths (init w) ! j) = {})
        \<and> (\<Union>p \<in> set (paths (init w)). interval p) = {0 ..< totalDuration (init w)})"
proof -
  let ?ss = "svgData w" and ?sm = "speedMultiplier w"
  let ?ds = "scaled ?sm ?ss"
  let ?P = "paths (init w)"
  have P: "?P = build_paths False (getTotalLength w) ?sm ?ss 0 (sum_list ?ds)"
    using fwd by (simp add: init_eq)
  have len: "length ?P = length ?ss" by (simp add: P)
  have lds: "length ?ds = length ?ss" by (simp add: scaled_def)
  have dur: "pduration (?P ! i) = duration (?ss ! i) * ?sm" if "i < length ?ss" for i
    using that by (simp add: P build_paths_nth)
  have dur': "pduration (?P ! i) = ?ds ! i" if "i < length ?ss" for i
    using that by (simp add: dur scaled_def)
  have start: "drawStartTime (?P ! i) = sum_list (take i ?ds)" if "i < length ?ss" for i
    using that by (simp add: P build_paths_nth)
  have fin: "drawStartTime (?P ! i) + pduration (?P ! i) = sum_list (take (Suc i) ?ds)"
    if "i < length ?ss" for i
    using that by (simp add: start dur' lds take_Suc_conv_app_nth)
  have first: "svgData w \<noteq> [] \<longrightarrow> drawStartTime (?P ! 0) = 0"
    using start [of 0] by simp
  have step: "drawStartTime (?P ! i) = drawStartTime (?P ! (i - 1)) + pduration (?P ! (i - 1))"
    if "0 < i" "i < length ?ss" for i
  proof -
    from that obtain k where k: "i = Suc k" by (cases i) auto
    with that fin [of k] start [of i] show ?thesis by simp
  qed
  have total: "totalDuration (init w) = sum_list (map pduration ?P)"
    using seq by (simp add: init_eq map_pduration_build)
  have tot_ds: "totalDuration (init w) = sum_list ?ds"
    using seq by (simp add: init_eq)
  have geom: "(\<forall>i j. i < j \<and> j < length ?ss \<longrightarrow> interval (?P ! i) \<inter> interval (?P ! j) = {})
      \<and> (\<Union>p \<in> set ?P. interval p) = {0 ..< totalDuration (init w)}"
    if nn: "\<forall>p \<in> set ?P. 0 \<le> pduration p"
  proof -
    from nn have nonneg: "\<forall>d \<in> set ?ds. 0 \<le> d"
      by (simp only: P scaled_nonneg_iff)
    have disj: "interval (?P ! i) \<inter> interval (?P ! j) = {}" if "i < j" "j < length ?ss" for i j
    proof -
      from that have i: "i < length ?ss" by simp
      have "sum_list (take (Suc i) ?ds) \<le> sum_list (take j ?ds)"
        using nonneg that by (intro sum_take_mono) simp_all
      then have "drawStartTime (?P ! i) + pduration (?P ! i) \<le> drawStartTime (?P ! j)"
        by (simp only: fin [OF i] start [OF that(2)])
      then show ?thesis by (auto simp: interval_def)
    qed
    have "(\<Union>p \<in> set ?P. interval p) = {0 ..< totalDuration (init w)}"
      using union_build_forward [OF nonneg, of "getTotalLength w" 0 "sum_list ?ds"]
      by (simp add: P [symmetric] tot_ds)
    with disj show ?thesis by blast
  qed
  from len dur first step total geom show ?thesis by blast
qed

theorem sequential_forward_schedule_witness:
  "drawSequential (fresh [segment 600, segment 600, segment 600])
   \<and> \<not> reverse (fresh [segment 600, segment 600, segment 600])
   \<and> map drawStartTime (paths (init (fresh [segment 600, segment 600, segment 600]))) = [0, 600, 1200]
   \<and> map pduration (paths (init (fresh [segment 600, segment 600, segment 600]))) = [600, 600, 600]
   \<and> totalDuration (init (fresh [segment 600, segment 600, segment 600])) = 1800
   \<and> (\<Union>p \<in> set (paths (init (fresh [segment 600, segment 600, segment 600]))). interval p) = {0 ..< 1800}"
proof -
  let ?w = "fresh [segment 600, segment 600, segment 600]"
  have h1: "drawSequential ?w" and h2: "\<not> reverse ?w" by (simp_all add: fresh_def)
  have ev: "map drawStartTime (paths (init ?w)) = [0, 600, 1200]"
    "map pduration (paths (init ?w)) = [600, 600, 600]"
    "totalDuration (init ?w) = 1800"
    by (simp_all add: init_eq fresh_def segment_def scaled_def)
  have nn: "\<forall>p \<in> set (paths (init ?w)). 0 \<le> pduration p"
    by (simp add: init_eq fresh_def segment_def scaled_def)
  from sequential_forward_schedule [OF h1 h2] nn ev h1 h2 show ?thesis by simp
qed

subsection \<open>Sequential mode, reverse\<close>

lemma reverse_offsets_spec_nth:
  "i < length ds \<Longrightarrow> reverse_offsets_spec r ds ! i = r - sum_list (take (Suc i) ds)"
proof (induction ds arbitrary: i r)
  case Nil
  then show ?case by simp
next
  case (Cons d ds)
  show ?case
  proof (cases i)
    case 0
    then show ?thesis by simp
  next
    case (Suc j)
    with Cons.prems have "j < length ds" by simp
    from Cons.IH [OF this] Suc show ?thesis by (simp add: algebra_simps)
  qed
qed



subsection \<open>Parallel mode\<close>








subsection \<open>The speed multiplier\<close>

lemma longest_double: "longest (2 * m) (map (\<lambda>d. 2 * d) ds) = 2 * longest m ds"
proof (induction ds arbitrary: m)
  case Nil
  then show ?case by simp
next
  case (Cons d ds)
  have "(if 2 * m < 2 * d then 2 * d else 2 * m) = 2 * (if m < d then d else m)" by simp
  with Cons.IH [of "if m < d then d else m"] show ?case by simp
qed

lemma sum_scaled_two: "sum_list (scaled 2 ss) = 2 * sum_list (scaled 1 ss)"
  by (induction ss) (simp_all add: scaled_def)

lemma scaled_two: "scaled 2 ss = map (\<lambda>d. 2 * d) (scaled 1 ss)"
  by (simp add: scaled_def)

text \<open>
  C4, as the code has it. \<open>init\<close> multiplies every duration by the speed multiplier: with
  \<open>speedMultiplier = 2\<close> every scaled duration, and the total duration, is twice what it is
  with \<open>speedMultiplier = 1\<close>, in sequential and in parallel mode.
\<close>

theorem speedMultiplier_two_doubles:
  "map pduration (paths (init (w\<lparr>speedMultiplier := 2\<rparr>))) =
     map (\<lambda>d. 2 * d) (map pduration (paths (init (w\<lparr>speedMultiplier := 1\<rparr>))))
   \<and> totalDuration (init (w\<lparr>speedMultiplier := 2\<rparr>)) =
       2 * totalDuration (init (w\<lparr>speedMultiplier := 1\<rparr>))"
proof -
  have a: "map pduration (paths (init (w\<lparr>speedMultiplier := sm\<rparr>))) = scaled sm (svgData w)" for sm
    by (simp add: init_eq map_pduration_build)
  have b: "totalDuration (init (w\<lparr>speedMultiplier := sm\<rparr>)) =
      (if drawSequential w then sum_list (scaled sm (svgData w)) else longest 0 (scaled sm (svgData w)))" for sm
    by (simp add: init_eq)
  have s: "sum_list (scaled 2 (svgData w)) = 2 * sum_list (scaled 1 (svgData w))"
    by (rule sum_scaled_two)
  have l: "longest 0 (scaled 2 (svgData w)) = 2 * longest 0 (scaled 1 (svgData w))"
    using longest_double [of 0 "scaled 1 (svgData w)"] by (simp add: scaled_two)
  from s l have T: "(if drawSequential w then sum_list (scaled 2 (svgData w)) else longest 0 (scaled 2 (svgData w)))
      = 2 * (if drawSequential w then sum_list (scaled 1 (svgData w)) else longest 0 (scaled 1 (svgData w)))"
    by simp
  show ?thesis by (simp only: a b T) (simp add: scaled_two)
qed

text \<open>
  Against C4 as stated: one segment of duration 600. With \<open>speedMultiplier = 1\<close> its scaled
  duration and the total duration are 600; with \<open>speedMultiplier = 2\<close> they are 1200, not
  300.
\<close>

theorem speedMultiplier_two_halves_counterexample:
  "totalDuration (init (fresh [segment 600]\<lparr>speedMultiplier := 1\<rparr>)) = 600
   \<and> totalDuration (init (fresh [segment 600]\<lparr>speedMultiplier := 2\<rparr>)) = 1200
   \<and> map pduration (paths (init (fresh [segment 600]\<lparr>speedMultiplier := 1\<rparr>))) = [600]
   \<and> map pduration (paths (init (fresh [segment 600]\<lparr>speedMultiplier := 2\<rparr>))) = [1200]
   \<and> totalDuration (init (fresh [segment 600]\<lparr>speedMultiplier := 2\<rparr>)) \<noteq>
       totalDuration (init (fresh [segment 600]\<lparr>speedMultiplier := 1\<rparr>)) / 2"
  by (simp add: init_eq fresh_def segment_def scaled_def)

subsection \<open>Pause and resume\<close>


lemma startTime_draw: "startTime (draw t w) = Num (start_or t (startTime w))"
  by (simp add: draw_def Let_def requestAnimationFrame_def)



lemma running_example:
  "frames [1000, 1300] (init (fresh [segment 600])) =
     (fresh [segment 600])
       \<lparr>paths := [\<lparr>pduration = 600, drawStartTime = 0, plength = 100, strokeDashoffset = 50\<rparr>],
        longestDuration := 600, playhead := 600, totalDuration := 600, rAF := Some 3,
        startTime := Num 1000, elapsedTime := Num 300, pending := [(3, Draw)],
        nextHandle := 4, svgChildren := 1\<rparr>"
  by (simp add: init_eq fresh_def segment_def scaled_def frame_def draw_def draw_path_def
      pathElapsedTime_def requestAnimationFrame_def Let_def)

lemma paused_example:
  "pauseResume (frames [1000, 1300] (init (fresh [segment 600]))) =
     Inr ((fresh [segment 600])
       \<lparr>paths := [\<lparr>pduration = 600, drawStartTime = 0, plength = 100, strokeDashoffset = 50\<rparr>],
        longestDuration := 600, playhead := 600, totalDuration := 600, rAF := Some 3,
        startTime := Num 1000, elapsedTime := Num 300, paused := True, pending := [],
        nextHandle := 4, svgChildren := 1\<rparr>)"
  by (simp only: running_example) (simp add: pauseResume_def cancelAnimationFrame_def fresh_def)


subsection \<open>The last frame\<close>

text \<open>When the path elapsed time equals the duration of the path, \<open>draw\<close> leaves the path as
  it is.\<close>

lemma draw_path_at_duration:
  "pathElapsedTime e seq p = pduration p \<Longrightarrow> draw_path e seq rv p = p"
  by (simp add: draw_path_def Let_def)

text \<open>
  C6, at a failing input. One segment of duration 600 and length 100, sequential, forward,
  with an \<open>onComplete\<close> callback; frames at the timestamps 1000, 1300 and 1600. In the third
  frame the elapsed time is exactly the total duration 600: \<open>onComplete\<close> is invoked once and
  no frame is requested, but the path elapsed time equals the duration of the path, so
  neither branch of \<open>draw\<close> writes \<open>strokeDashoffset\<close>, which stays at 50, half of the length
  (visible fraction one half), as the second frame left it. With only the frames at 1000 and 1600 it stays at 100: the
  whole stroke hidden.
\<close>

theorem final_frame_at_totalDuration_stops_short:
  "elapsedTime (frames [1000, 1300, 1600] (init (fresh [segment 600]))) = Num 600
   \<and> totalDuration (frames [1000, 1300, 1600] (init (fresh [segment 600]))) = 600
   \<and> map strokeDashoffset (paths (frames [1000, 1300, 1600] (init (fresh [segment 600])))) = [50]
   \<and> map plength (paths (frames [1000, 1300, 1600] (init (fresh [segment 600])))) = [100]
   \<and> map visibleFraction (paths (frames [1000, 1300, 1600] (init (fresh [segment 600])))) = [1 / 2]
   \<and> onCompleteCalls (frames [1000, 1300, 1600] (init (fresh [segment 600]))) = 1
   \<and> pending (frames [1000, 1300, 1600] (init (fresh [segment 600]))) = []
   \<and> elapsedTime (frames [1000, 1600] (init (fresh [segment 600]))) = Num 600
   \<and> map strokeDashoffset (paths (frames [1000, 1600] (init (fresh [segment 600])))) = [100]
   \<and> pending (frames [1000, 1600] (init (fresh [segment 600]))) = []"
  by (simp add: init_eq fresh_def segment_def scaled_def frame_def draw_def draw_path_def
      pathElapsedTime_def requestAnimationFrame_def visibleFraction_def Let_def)

subsection \<open>The visible fraction\<close>

lemma init_paths_hidden: "\<forall>p \<in> set (paths (init w)). strokeDashoffset p = plength p"
proof -
  have "\<forall>p \<in> set (build_paths rv gl sm ss play tot). strokeDashoffset p = plength p"
    for rv gl sm ss play tot
    by (induction ss arbitrary: play tot) simp_all
  then show ?thesis by (simp add: init_eq)
qed

lemma paths_draw:
  "paths (draw t w) =
     draw_paths (t - start_or t (startTime w)) (drawSequential w) (reverse w) (svgData w) (paths w)"
  by (simp add: draw_def Let_def requestAnimationFrame_def)

lemma draw_paths_nth:
  "i < length ss \<Longrightarrow> i < length ps \<Longrightarrow>
     draw_paths e seq rv ss ps ! i = draw_path e seq (rv \<or> reverse_seg (ss ! i)) (ps ! i)"
proof (induction ss arbitrary: ps i)
  case Nil
  then show ?case by simp
next
  case (Cons s ss)
  then obtain q qs where ps: "ps = q # qs" by (cases ps) auto
  with Cons show ?case by (cases i) simp_all
qed

lemma draw_path_fields:
  "pduration (draw_path e seq rv p) = pduration p"
  "drawStartTime (draw_path e seq rv p) = drawStartTime p"
  "plength (draw_path e seq rv p) = plength p"
  by (simp_all add: draw_path_def Let_def)

lemma pathElapsedTime_draw_path:
  "pathElapsedTime e' seq (draw_path e seq rv p) = pathElapsedTime e' seq p"
  by (simp add: pathElapsedTime_def draw_path_fields)

lemma ideal_draw_path: "ideal e' seq (draw_path e seq rv p) = ideal e' seq p"
  by (simp add: ideal_def draw_path_fields pathElapsedTime_draw_path)

lemma pathElapsedTime_mono: "e \<le> e' \<Longrightarrow> pathElapsedTime e seq p \<le> pathElapsedTime e' seq p"
  by (simp add: pathElapsedTime_def)

lemma ideal_bounds: "0 \<le> ideal e seq p \<and> ideal e seq p \<le> 1"
  by (simp add: ideal_def)

lemma ideal_mono:
  assumes "e \<le> e'"
  shows "ideal e seq p \<le> ideal e' seq p"
proof -
  let ?a = "pathElapsedTime e seq p" and ?b = "pathElapsedTime e' seq p"
  have ab: "?a \<le> ?b" using assms by (rule pathElapsedTime_mono)
  show ?thesis
  proof (cases "plength p = 0 \<or> pduration p \<le> ?b")
    case True
    then show ?thesis using ideal_bounds [of e seq p] by (auto simp: ideal_def)
  next
    case False
    with ab have lt: "?a < pduration p" "?b < pduration p" "plength p \<noteq> 0" by auto
    show ?thesis
    proof (cases "0 < ?a")
      case True
      with ab lt have "?a / pduration p \<le> ?b / pduration p"
        by (intro divide_right_mono) simp_all
      with True ab lt show ?thesis by (simp add: ideal_def)
    next
      case False
      with lt have "ideal e seq p = 0" by (simp add: ideal_def)
      with ideal_bounds [of e' seq p] show ?thesis by simp
    qed
  qed
qed

lemma draw_path_writes_ideal:
  assumes L: "0 \<le> plength p"
  shows "draw_path e seq rv p = p \<or> visibleFraction (draw_path e seq rv p) = ideal e seq p"
proof -
  let ?pe = "pathElapsedTime e seq p" and ?D = "pduration p" and ?L = "plength p"
  consider (mid) "?pe < ?D" "0 < ?pe" | (over) "\<not> (?pe < ?D \<and> 0 < ?pe)" "?D < ?pe"
    | (none) "\<not> (?pe < ?D \<and> 0 < ?pe)" "\<not> ?D < ?pe"
    by blast
  then show ?thesis
  proof cases
    case mid
    let ?x = "?pe / ?D"
    from mid have x: "0 < ?x" "?x < 1" by simp_all
    have id: "ideal e seq p = (if ?L = 0 then 1 else ?x)" using mid by (simp add: ideal_def)
    from x(2) have "?x \<le> 1" by (rule less_imp_le)
    from mult_right_mono [OF this L] have xl: "?x * ?L \<le> ?L" by simp
    have off: "\<bar>strokeDashoffset (draw_path e seq rv p)\<bar> = ?L - ?x * ?L"
      using mid xl by (simp add: draw_path_def Let_def)
    have "visibleFraction (draw_path e seq rv p) = (if ?L = 0 then 1 else ?x)"
      by (simp add: visibleFraction_def draw_path_fields off)
    with id show ?thesis by simp
  next
    case over
    then have "strokeDashoffset (draw_path e seq rv p) = 0"
      by (simp add: draw_path_def Let_def)
    then have "visibleFraction (draw_path e seq rv p) = 1"
      by (simp add: visibleFraction_def draw_path_fields)
    moreover have "ideal e seq p = 1" using over by (simp add: ideal_def)
    ultimately show ?thesis by simp
  next
    case none
    then have "draw_path e seq rv p = p" by (auto simp: draw_path_def Let_def)
    then show ?thesis ..
  qed
qed

lemma frames_path_invariant:
  assumes "0 \<le> plength q" "sorted es"
    and "0 \<le> visibleFraction q" "visibleFraction q \<le> 1"
    and "\<forall>e \<in> set es. visibleFraction q \<le> ideal e seq q"
  shows "sorted (map visibleFraction (q # frames_path es seq rv q))
    \<and> (\<forall>x \<in> set (q # frames_path es seq rv q). 0 \<le> visibleFraction x \<and> visibleFraction x \<le> 1)"
  using assms
proof (induction es arbitrary: q)
  case Nil
  then show ?case by simp
next
  case (Cons e es)
  let ?q' = "draw_path e seq rv q"
  from Cons.prems(2) have later: "\<forall>e' \<in> set es. e \<le> e'" and srt: "sorted es" by simp_all
  have L': "0 \<le> plength ?q'" using Cons.prems(1) by (simp add: draw_path_fields)
  from draw_path_writes_ideal [OF Cons.prems(1), of e seq rv]
  have step: "visibleFraction q \<le> visibleFraction ?q'
      \<and> 0 \<le> visibleFraction ?q' \<and> visibleFraction ?q' \<le> 1
      \<and> (\<forall>e' \<in> set es. visibleFraction ?q' \<le> ideal e' seq ?q')"
  proof
    assume same: "?q' = q"
    with Cons.prems show ?thesis by simp
  next
    assume w: "visibleFraction ?q' = ideal e seq q"
    have "visibleFraction q \<le> ideal e seq q" using Cons.prems(5) by simp
    moreover have "ideal e seq q \<le> ideal e' seq ?q'" if "e' \<in> set es" for e'
      using later that by (simp add: ideal_draw_path ideal_mono)
    ultimately show ?thesis using w ideal_bounds [of e seq q] by simp
  qed
  from Cons.IH [OF L' srt] step
  have IH: "sorted (map visibleFraction (?q' # frames_path es seq rv ?q'))
    \<and> (\<forall>x \<in> set (?q' # frames_path es seq rv ?q'). 0 \<le> visibleFraction x \<and> visibleFraction x \<le> 1)"
    by blast
  have "\<forall>x \<in> set (frames_path es seq rv ?q'). visibleFraction ?q' \<le> visibleFraction x"
    using IH by simp
  with step have "\<forall>x \<in> set (?q' # frames_path es seq rv ?q'). visibleFraction q \<le> visibleFraction x"
    by auto
  with IH Cons.prems(3,4) show ?case by simp
qed

text \<open>
  C7. A path as \<open>init\<close> leaves it (dash offset equal to its length, which the browser
  measured as non-negative) goes through a run of frames whose elapsed times do not decrease.
  Then the visible fraction of the path never decreases from one state to the next, from the
  initial state on, and it is between 0 and 1 in every state; in sequential and in parallel
  mode, forward and reverse, for every duration and start time of the path.
\<close>

theorem visibleFraction_monotone:
  assumes "0 \<le> plength p" and "strokeDashoffset p = plength p" and "sorted es"
  shows "sorted (map visibleFraction (p # frames_path es seq rv p))
    \<and> (\<forall>q \<in> set (p # frames_path es seq rv p). 0 \<le> visibleFraction q \<and> visibleFraction q \<le> 1)"
proof (cases "plength p = 0")
  case True
  then have v: "visibleFraction p = 1" by (simp add: visibleFraction_def)
  then have "\<forall>e \<in> set es. visibleFraction p \<le> ideal e seq p"
    using True by (simp add: ideal_def)
  with assms v show ?thesis by (intro frames_path_invariant) simp_all
next
  case False
  with assms have v: "visibleFraction p = 0" by (simp add: visibleFraction_def)
  then have "\<forall>e \<in> set es. visibleFraction p \<le> ideal e seq p"
    using ideal_bounds by simp
  with assms v show ?thesis by (intro frames_path_invariant) simp_all
qed

theorem visibleFraction_monotone_witness:
  "0 \<le> plength \<lparr>pduration = 600, drawStartTime = 0, plength = 100, strokeDashoffset = 100\<rparr>
   \<and> strokeDashoffset \<lparr>pduration = 600, drawStartTime = 0, plength = 100, strokeDashoffset = 100\<rparr>
       = plength \<lparr>pduration = 600, drawStartTime = 0, plength = 100, strokeDashoffset = 100\<rparr>
   \<and> sorted [0, 300, 600, 700 :: real]
   \<and> sorted (map visibleFraction
        (\<lparr>pduration = 600, drawStartTime = 0, plength = 100, strokeDashoffset = 100\<rparr>
         # frames_path [0, 300, 600, 700] True False
             \<lparr>pduration = 600, drawStartTime = 0, plength = 100, strokeDashoffset = 100\<rparr>))
   \<and> map visibleFraction
        (\<lparr>pduration = 600, drawStartTime = 0, plength = 100, strokeDashoffset = 100\<rparr>
         # frames_path [0, 300, 600, 700] True False
             \<lparr>pduration = 600, drawStartTime = 0, plength = 100, strokeDashoffset = 100\<rparr>)
       = [0, 0, 1 / 2, 1 / 2, 1]"
proof -
  let ?p = "\<lparr>pduration = 600, drawStartTime = 0, plength = 100, strokeDashoffset = 100 :: real\<rparr>"
  have h1: "0 \<le> plength ?p" and h2: "strokeDashoffset ?p = plength ?p"
    and h3: "sorted [0, 300, 600, 700 :: real]" by simp_all
  have ev: "map visibleFraction (?p # frames_path [0, 300, 600, 700] True False ?p)
      = [0, 0, 1 / 2, 1 / 2, 1]"
    by (simp add: visibleFraction_def draw_path_def pathElapsedTime_def Let_def)
  from visibleFraction_monotone [OF h1 h2 h3, of True False]
  have "sorted (map visibleFraction (?p # frames_path [0, 300, 600, 700] True False ?p))"
    by blast
  with h1 h2 h3 ev show ?thesis by blast
qed

subsection \<open>\<open>paint\<close> validates nothing\<close>

lemma paint_delayed:
  assumes "has_data w" and "delay w = Some ms" and "timeouts w = []"
  shows "paint w = Inr (w\<lparr>timeouts := [ms]\<rparr>)"
    and "timeout_fires (w\<lparr>timeouts := [ms]\<rparr>) = init w"
proof -
  show "paint w = Inr (w\<lparr>timeouts := [ms]\<rparr>)"
    using assms by (simp add: paint_def)
  have "w\<lparr>timeouts := []\<rparr> = w" using assms(3) by simp
  then show "timeout_fires (w\<lparr>timeouts := [ms]\<rparr>) = init w"
    by (simp add: timeout_fires_def)
qed

lemma pending_init: "pending (init w) = pending w @ [(nextHandle w, Draw)]"
  by (simp add: init_eq)

text \<open>
  C8, as the code has it. \<open>paint\<close> checks neither the speed multiplier nor the durations:
  it fails only on an element without plugin data. On an element with data and no delay it
  runs \<open>init\<close>, which builds the paths with the scaled durations
  \<open>duration * speedMultiplier\<close>, whatever their sign, and requests the first frame; with a
  delay it sets the timer for \<open>init\<close>.
\<close>

theorem paint_without_validation:
  "isl (paint w) = (\<not> has_data w)
   \<and> (has_data w \<and> delay w = None \<longrightarrow>
        paint w = Inr (init w)
        \<and> map pduration (paths (init w)) = scaled (speedMultiplier w) (svgData w)
        \<and> pending (init w) = pending w @ [(nextHandle w, Draw)])
   \<and> (has_data w \<and> delay w = Some ms \<longrightarrow>
        paint w = Inr (w\<lparr>timeouts := timeouts w @ [ms]\<rparr>))"
proof -
  have a: "isl (paint w) = (\<not> has_data w)"
    by (simp add: paint_def split: option.split)
  have b: "paint w = Inr (init w)" if "has_data w" "delay w = None"
    using that by (simp add: paint_def)
  have c: "map pduration (paths (init w)) = scaled (speedMultiplier w) (svgData w)"
    by (simp add: init_eq map_pduration_build)
  have d: "paint w = Inr (w\<lparr>timeouts := timeouts w @ [ms]\<rparr>)" if "has_data w" "delay w = Some ms"
    using that by (simp add: paint_def)
  from a b c d pending_init [of w] show ?thesis by blast
qed

theorem paint_without_validation_witness:
  "has_data (fresh [segment 600, segment (- 200)]\<lparr>speedMultiplier := - 1\<rparr>)
   \<and> delay (fresh [segment 600, segment (- 200)]\<lparr>speedMultiplier := - 1\<rparr>) = None
   \<and> \<not> isl (paint (fresh [segment 600, segment (- 200)]\<lparr>speedMultiplier := - 1\<rparr>))
   \<and> map pduration (paths (projr (paint (fresh [segment 600, segment (- 200)]\<lparr>speedMultiplier := - 1\<rparr>))))
       = [- 600, 200]
   \<and> pending (projr (paint (fresh [segment 600, segment (- 200)]\<lparr>speedMultiplier := - 1\<rparr>)))
       = [(1, Draw)]
   \<and> has_data (fresh [segment 600]\<lparr>delay := Some 250\<rparr>)
   \<and> timeouts (projr (paint (fresh [segment 600]\<lparr>delay := Some 250\<rparr>))) = [250]"
proof -
  let ?w = "fresh [segment 600, segment (- 200)]\<lparr>speedMultiplier := - 1\<rparr>"
  let ?v = "fresh [segment 600]\<lparr>delay := Some 250\<rparr>"
  have h: "has_data ?w" "delay ?w = None" and k: "has_data ?v" "delay ?v = Some 250"
    by (simp_all add: fresh_def)
  have sc: "scaled (speedMultiplier ?w) (svgData ?w) = [- 600, 200]"
    by (simp add: fresh_def segment_def scaled_def)
  have pw: "pending ?w = []" "nextHandle ?w = 1" "timeouts ?v = []" by (simp_all add: fresh_def)
  note main = paint_without_validation [of ?w] 
  from main h have 1: "\<not> isl (paint ?w)" by blast
  from main h have 2: "paint ?w = Inr (init ?w)" by blast
  from main h have 3: "map pduration (paths (init ?w)) = [- 600, 200]"
    by (simp only: sc [symmetric])
  from main h have "pending (init ?w) = pending ?w @ [(nextHandle ?w, Draw)]" by blast
  then have 4: "pending (init ?w) = [(1, Draw)]" by (simp only: pw) simp
  from paint_without_validation [of ?v 250] k
  have "paint ?v = Inr (?v\<lparr>timeouts := timeouts ?v @ [250]\<rparr>)" by blast
  then have 5: "timeouts (projr (paint ?v)) = [250]" by (simp add: pw)
  from h k 1 2 3 4 5 show ?thesis by (simp only: sum.sel) blast
qed

text \<open>
  Against C8 as stated: with the speed multiplier 0, and with a segment of duration -600,
  \<open>paint\<close> returns normally, having run \<open>init\<close>, and the first frame is pending.
\<close>

theorem paint_rejects_nonpositive_counterexample:
  "speedMultiplier (fresh [segment 600]\<lparr>speedMultiplier := 0\<rparr>) \<le> 0
   \<and> paint (fresh [segment 600]\<lparr>speedMultiplier := 0\<rparr>)
       = Inr (init (fresh [segment 600]\<lparr>speedMultiplier := 0\<rparr>))
   \<and> pending (init (fresh [segment 600]\<lparr>speedMultiplier := 0\<rparr>)) = [(1, Draw)]
   \<and> duration (segment (- 600)) < 0
   \<and> paint (fresh [segment (- 600)]) = Inr (init (fresh [segment (- 600)]))
   \<and> map pduration (paths (init (fresh [segment (- 600)]))) = [- 600]
   \<and> pending (init (fresh [segment (- 600)])) = [(1, Draw)]"
  by (simp add: paint_def init_eq fresh_def segment_def scaled_def)

subsection \<open>\<open>paint\<close> on a playback that is running or paused\<close>

text \<open>
  C9, as the code has it. \<open>paint\<close> on an element with data and no delay runs \<open>init\<close>,
  which builds the paths and the total duration anew, from the options alone and whatever the
  timeline before was, appends one \<open>path\<close> element to the \<open>svg\<close> element for each segment,
  and requests one frame for \<open>draw\<close>, whose handle replaces \<open>data.rAF\<close>. It cancels no
  frame: the callbacks that were pending are still pending, before the new one. And it leaves
  \<open>startTime\<close>, \<open>elapsedTime\<close> and \<open>paused\<close> as they were.
\<close>

theorem paint_again_keeps_clock_and_frames:
  assumes "has_data w" and "delay w = None"
  shows "paint w = Inr (init w)
    \<and> paths (init w) =
        paths (init (w\<lparr>paths := ps, longestDuration := l, playhead := ph, totalDuration := T\<rparr>))
    \<and> totalDuration (init w) =
        totalDuration (init (w\<lparr>paths := ps, longestDuration := l, playhead := ph, totalDuration := T\<rparr>))
    \<and> svgChildren (init w) = svgChildren w + length (svgData w)
    \<and> pending (init w) = pending w @ [(nextHandle w, Draw)]
    \<and> rAF (init w) = Some (nextHandle w)
    \<and> startTime (init w) = startTime w
    \<and> elapsedTime (init w) = elapsedTime w
    \<and> paused (init w) = paused w"
  using assms by (simp add: paint_def init_eq)

theorem paint_again_keeps_clock_and_frames_witness:
  "has_data (frames [1000, 1300] (init (fresh [segment 600])))
   \<and> delay (frames [1000, 1300] (init (fresh [segment 600]))) = None
   \<and> pending (frames [1000, 1300] (init (fresh [segment 600]))) = [(3, Draw)]
   \<and> pending (projr (paint (frames [1000, 1300] (init (fresh [segment 600])))))
       = [(3, Draw), (4, Draw)]
   \<and> elapsedTime (projr (paint (frames [1000, 1300] (init (fresh [segment 600]))))) = Num 300"
proof -
  define w where "w = frames [1000, 1300] (init (fresh [segment 600]))"
  have h: "has_data w" "delay w = None"
    and f: "pending w = [(3, Draw)]" "nextHandle w = 4" "elapsedTime w = Num 300"
    by (simp_all only: w_def running_example) (simp_all add: fresh_def)
  note main = paint_again_keeps_clock_and_frames [OF h]
  from main have p: "paint w = Inr (init w)" by blast
  from main have "pending (init w) = pending w @ [(nextHandle w, Draw)]" by blast
  then have q: "pending (init w) = [(3, Draw), (4, Draw)]" by (simp add: f)
  from main have "elapsedTime (init w) = elapsedTime w" by blast
  then have e: "elapsedTime (init w) = Num 300" by (simp add: f)
  from h f(1) q e show ?thesis unfolding w_def [symmetric] p sum.sel by blast
qed

text \<open>
  Against C9 as stated: a playback of one segment of duration 600 has run the frames at 1000
  and 1300 when \<open>paint\<close> is called again. The frame with handle 3 of the first playback is still
  pending beside the new one with handle 4, the \<open>svg\<close> element holds two \<open>path\<close> elements, and
  the start time and the elapsed time are those of the first playback. In the next frame,
  at 1316, \<open>draw\<close> runs twice, the elapsed time is 316, not 0, and two frames are requested.
  Called on the paused playback instead, \<open>paint\<close> leaves it marked as paused, and the
  frame it requests, at 5000, computes the elapsed time 4000 from the old start time and ends
  the playback at once.
\<close>

theorem paint_again_resets_counterexample:
  "paint (frames [1000, 1300] (init (fresh [segment 600])))
     = Inr (init (frames [1000, 1300] (init (fresh [segment 600]))))
   \<and> pending (init (frames [1000, 1300] (init (fresh [segment 600])))) = [(3, Draw), (4, Draw)]
   \<and> svgChildren (init (frames [1000, 1300] (init (fresh [segment 600])))) = 2
   \<and> startTime (init (frames [1000, 1300] (init (fresh [segment 600])))) = Num 1000
   \<and> elapsedTime (init (frames [1000, 1300] (init (fresh [segment 600])))) = Num 300
   \<and> elapsedTime (frame 1316 (init (frames [1000, 1300] (init (fresh [segment 600]))))) = Num 316
   \<and> pending (frame 1316 (init (frames [1000, 1300] (init (fresh [segment 600])))))
       = [(5, Draw), (6, Draw)]
   \<and> paused (init (projr (pauseResume (frames [1000, 1300] (init (fresh [segment 600]))))))
   \<and> elapsedTime (frame 5000 (init (projr (pauseResume
        (frames [1000, 1300] (init (fresh [segment 600]))))))) = Num 4000
   \<and> pending (frame 5000 (init (projr (pauseResume
        (frames [1000, 1300] (init (fresh [segment 600]))))))) = []"
  apply (simp only: paused_example sum.sel)
  apply (simp only: running_example)
  by (simp add: paint_def init_eq fresh_def segment_def scaled_def frame_def draw_def draw_path_def
      pathElapsedTime_def requestAnimationFrame_def Let_def)

subsection \<open>\<open>erase\<close>\<close>

text \<open>
  C10. On an element with data, \<open>erase\<close> sets \<open>startTime\<close> and \<open>elapsedTime\<close> to
  \<open>null\<close>, cancels the frame with the handle \<open>data.rAF\<close> and empties the \<open>svg\<close> element;
  every other field, the \<open>paused\<close> flag among them, is as before. So when the playback was
  paused, the next \<open>pauseResume\<close> takes the resume branch: it clears the flag and requests a
  frame for \<open>adjustStartTime\<close>.
\<close>

theorem erase_keeps_paused:
  assumes "has_data w"
  shows "erase w = Inr (w\<lparr>startTime := Null, elapsedTime := Null,
                         pending := filter (\<lambda>(k, cb). Some k \<noteq> rAF w) (pending w),
                         svgChildren := 0\<rparr>)
    \<and> (\<forall>k cb. rAF w = Some k \<longrightarrow> (k, cb) \<notin> set (pending (projr (erase w))))
    \<and> paused (projr (erase w)) = paused w
    \<and> (paused w \<longrightarrow>
         pauseResume (projr (erase w)) =
           Inr ((projr (erase w))
                  \<lparr>paused := False,
                   pending := pending (projr (erase w)) @ [(nextHandle w, AdjustStartTime)],
                   nextHandle := Suc (nextHandle w)\<rparr>))"
  using assms
  by (auto simp: erase_def cancelAnimationFrame_def pauseResume_def requestAnimationFrame_def)

theorem erase_keeps_paused_witness:
  "has_data (projr (pauseResume (frames [1000, 1300] (init (fresh [segment 600])))))
   \<and> paused (projr (pauseResume (frames [1000, 1300] (init (fresh [segment 600])))))
   \<and> startTime (projr (erase (projr (pauseResume (frames [1000, 1300] (init (fresh [segment 600]))))))) = Null
   \<and> paused (projr (erase (projr (pauseResume (frames [1000, 1300] (init (fresh [segment 600])))))))
   \<and> \<not> paused (projr (pauseResume (projr (erase (projr (pauseResume
         (frames [1000, 1300] (init (fresh [segment 600])))))))))
   \<and> pending (projr (pauseResume (projr (erase (projr (pauseResume
         (frames [1000, 1300] (init (fresh [segment 600])))))))))
       = [(4, AdjustStartTime)]"
proof -
  define w where "w = projr (pauseResume (frames [1000, 1300] (init (fresh [segment 600]))))"
  have h: "has_data w" and p: "paused w"
    and f: "pending w = []" "nextHandle w = 4" "rAF w = Some 3"
    by (simp_all only: w_def paused_example sum.sel) (simp_all add: fresh_def)
  note main = erase_keeps_paused [OF h]
  from main have e: "erase w = Inr (w\<lparr>startTime := Null, elapsedTime := Null,
      pending := filter (\<lambda>(k, cb). Some k \<noteq> rAF w) (pending w), svgChildren := 0\<rparr>)"
    by blast
  then have s: "startTime (projr (erase w)) = Null" and q: "pending (projr (erase w)) = []"
    by (simp_all add: f)
  from main p have pe: "paused (projr (erase w))" by blast
  from main p have "pauseResume (projr (erase w)) =
      Inr ((projr (erase w))\<lparr>paused := False,
             pending := pending (projr (erase w)) @ [(nextHandle w, AdjustStartTime)],
             nextHandle := Suc (nextHandle w)\<rparr>)" by blast
  then have r: "\<not> paused (projr (pauseResume (projr (erase w))))"
    "pending (projr (pauseResume (projr (erase w)))) = [(4, AdjustStartTime)]"
    by (simp_all add: q f)
  from h p s pe r show ?thesis unfolding w_def by blast
qed

end
